theory Spec2Isabelle
  imports Main
begin

section \<open>The PDF page extractor (extra_page.py)\<close>

text \<open>
  The program reads one PDF, and for every requested page range writes a new PDF holding
  the pages of the range and an empty Markdown file beside it. Everything it does is
  input and output, so the model threads an explicit world through the code: the files
  on disk, the paths that cannot be opened for writing, and the trace of what the call
  did (what it printed, what it parsed, which files it created or truncated).
\<close>

subsection \<open>Data\<close>

type_synonym page = string
type_synonym path = string

text \<open>
  What a path holds: a document that the PDF library parses into its pages, or any other
  bytes (the empty Markdown file is \<open>PlainData []\<close>).
\<close>

datatype node = PdfDocument "page list" | PlainData string

datatype error =
    FileNotFoundError path
  | PdfReadError path
  | OSError path
  | IndexError

datatype message =
    TotalPages int
  | WarnBelowOne int int int
  | WarnBeyondTotal int int int int
  | WarnStartAfterEnd int int int
  | SavedRange int int path
  | CreatedMarkdown path
  | MarkdownFailed path error
  | ProcessingFailed error

datatype event = Print message | Parse path | Create path node

record world =
  files :: "path \<rightharpoonup> node"
  denied :: "path list"
  trace :: "event list"

subsection \<open>The library calls the program makes\<close>

text \<open>\<open>str.endswith\<close>.\<close>

definition endswith :: "string \<Rightarrow> string \<Rightarrow> bool" where
  "endswith s suffix =
     (length suffix \<le> length s \<and> drop (length s - length suffix) s = suffix)"

text \<open>\<open>range(a, b)\<close>: the integers from \<open>a\<close> up to \<open>b - 1\<close>.\<close>

definition py_range :: "int \<Rightarrow> int \<Rightarrow> int list" where
  "py_range a b = [a..b - 1]"

text \<open>
  \<open>reader.pages[i]\<close>: a negative index counts from the end, an index out of range raises.
\<close>

definition pages_getitem :: "page list \<Rightarrow> int \<Rightarrow> error + page" where
  "pages_getitem ps i =
     (let n = int (length ps); j = (if i < 0 then n + i else i)
      in if 0 \<le> j \<and> j < n then Inr (ps ! nat j) else Inl IndexError)"

text \<open>
  \<open>os.path.exists\<close>, \<open>os.path.dirname\<close> and \<open>os.path.join\<close>, in their POSIX form
  (separator \<open>/\<close>).
\<close>

definition path_exists :: "world \<Rightarrow> path \<Rightarrow> bool" where
  "path_exists w p = (files w p \<noteq> None)"

definition rstrip_sep :: "string \<Rightarrow> string" where
  "rstrip_sep s = rev (dropWhile (\<lambda>c. c = CHR ''/'') (rev s))"

definition dirname :: "path \<Rightarrow> path" where
  "dirname p =
     (let head = rev (dropWhile (\<lambda>c. c \<noteq> CHR ''/'') (rev p))
      in if head \<noteq> [] \<and> head \<noteq> replicate (length head) (CHR ''/'')
         then rstrip_sep head else head)"

definition path_join :: "path \<Rightarrow> path \<Rightarrow> path" where
  "path_join a b =
     (if b \<noteq> [] \<and> hd b = CHR ''/'' then b
      else if a = [] \<or> last a = CHR ''/'' then a @ b
      else a @ ''/'' @ b)"

text \<open>\<open>print\<close> appends a line to the trace.\<close>

definition emit :: "message \<Rightarrow> world \<Rightarrow> world" where
  "emit m w = w\<lparr>trace := trace w @ [Print m]\<rparr>"

text \<open>
  \<open>PdfReader(path)\<close>: the parse is attempted (and recorded); it yields the pages of a
  document and raises on anything else.
\<close>

definition pdf_reader :: "world \<Rightarrow> path \<Rightarrow> (error + page list) \<times> world" where
  "pdf_reader w p =
     (case files w p of
        Some (PdfDocument ps) \<Rightarrow> Inr ps
      | _ \<Rightarrow> Inl (PdfReadError p),
      w\<lparr>trace := trace w @ [Parse p]\<rparr>)"

text \<open>
  \<open>with open(path, mode) as f: ...\<close> for writing: opening a denied path raises and
  leaves the disk as it is; otherwise the file is created or truncated and holds the
  content written.
\<close>

definition open_write :: "world \<Rightarrow> path \<Rightarrow> node \<Rightarrow> error + world" where
  "open_write w p c =
     (if p \<in> set (denied w) then Inl (OSError p)
      else Inr (w\<lparr>files := (files w)(p \<mapsto> c), trace := trace w @ [Create p c]\<rparr>))"

subsection \<open>extract_pages\<close>

text \<open>
  The inner loop \<open>for page_num in range(...): writer.add_page(reader.pages[page_num])\<close>;
  the accumulator is the writer's page list.
\<close>

fun add_pages :: "page list \<Rightarrow> int list \<Rightarrow> page list \<Rightarrow> error + page list" where
  "add_pages reader [] writer = Inr writer"
| "add_pages reader (page_num # rest) writer =
     (case pages_getitem reader page_num of
        Inl e \<Rightarrow> Inl e
      | Inr p \<Rightarrow> add_pages reader rest (writer @ [p]))"

definition pdf_output_filename :: "string \<Rightarrow> string" where
  "pdf_output_filename base_filename =
     (if \<not> endswith base_filename ''.pdf'' then base_filename @ ''.pdf''
      else base_filename)"

definition md_output_filename :: "string \<Rightarrow> string" where
  "md_output_filename base_filename = base_filename @ ''.md''"

text \<open>The body of the loop over \<open>page_ranges\<close>, for one \<open>(start, end, base_filename)\<close>.\<close>

definition process_range ::
  "path \<Rightarrow> page list \<Rightarrow> int \<Rightarrow> int \<Rightarrow> world \<Rightarrow> int \<times> int \<times> string
     \<Rightarrow> (error + unit) \<times> world" where
  "process_range pdf_dir reader total_pages offset w r =
     (case r of (start, endp, base_filename) \<Rightarrow>
        let actual_start = start + offset;
            actual_end = endp + offset
        in
        if actual_start < 1 \<or> actual_end < 1
          then (Inr (), emit (WarnBelowOne start endp offset) w)
        else if actual_start > total_pages \<or> actual_end > total_pages
          then (Inr (), emit (WarnBeyondTotal start endp offset total_pages) w)
        else if actual_start > actual_end
          then (Inr (), emit (WarnStartAfterEnd start endp offset) w)
        else
          (case add_pages reader (py_range (actual_start - 1) actual_end) [] of
             Inl e \<Rightarrow> (Inl e, w)
           | Inr writer \<Rightarrow>
               let output_path = path_join pdf_dir (pdf_output_filename base_filename) in
               (case open_write w output_path (PdfDocument writer) of
                  Inl e \<Rightarrow> (Inl e, w)
                | Inr w1 \<Rightarrow>
                    let w2 = emit (SavedRange start endp output_path) w1;
                        md_output_path = path_join pdf_dir (md_output_filename base_filename)
                    in
                    (case open_write w2 md_output_path (PlainData []) of
                       Inl e \<Rightarrow> (Inr (), emit (MarkdownFailed md_output_path e) w2)
                     | Inr w3 \<Rightarrow> (Inr (), emit (CreatedMarkdown md_output_path) w3)))))"

text \<open>The loop itself: an exception in one iteration ends it.\<close>

fun ranges_loop ::
  "path \<Rightarrow> page list \<Rightarrow> int \<Rightarrow> int \<Rightarrow> world \<Rightarrow> (int \<times> int \<times> string) list
     \<Rightarrow> (error + unit) \<times> world" where
  "ranges_loop pdf_dir reader total_pages offset w [] = (Inr (), w)"
| "ranges_loop pdf_dir reader total_pages offset w (r # rs) =
     (case process_range pdf_dir reader total_pages offset w r of
        (Inl e, w') \<Rightarrow> (Inl e, w')
      | (Inr u, w') \<Rightarrow> ranges_loop pdf_dir reader total_pages offset w' rs)"

text \<open>The \<open>try\<close> block.\<close>

definition extract_body ::
  "world \<Rightarrow> path \<Rightarrow> (int \<times> int \<times> string) list \<Rightarrow> int \<Rightarrow> (error + unit) \<times> world" where
  "extract_body w pdf_path page_ranges offset =
     (let d = dirname pdf_path;
          pdf_dir = (if d = [] then ''.'' else d)
      in case pdf_reader w pdf_path of
           (Inl e, w1) \<Rightarrow> (Inl e, w1)
         | (Inr reader, w1) \<Rightarrow>
             let total_pages = int (length reader);
                 w2 = emit (TotalPages total_pages) w1
             in ranges_loop pdf_dir reader total_pages offset w2 page_ranges)"

text \<open>
  The function: the existence check, then the \<open>try\<close> block, whose handler prints the
  exception and raises it again.
\<close>

definition extract_pages ::
  "world \<Rightarrow> path \<Rightarrow> (int \<times> int \<times> string) list \<Rightarrow> int \<Rightarrow> (error + unit) \<times> world" where
  "extract_pages w pdf_path page_ranges offset =
     (if \<not> path_exists w pdf_path then (Inl (FileNotFoundError pdf_path), w)
      else case extract_body w pdf_path page_ranges offset of
             (Inl e, w') \<Rightarrow> (Inl e, emit (ProcessingFailed e) w')
           | (Inr u, w') \<Rightarrow> (Inr u, w'))"

subsection \<open>The filename rule as the specification words it\<close>

text \<open>
  The specification derives the document's name from the extension of the source file
  (\<open>os.path.splitext\<close> of its last component), where the code writes the literal
  \<open>.pdf\<close>. These two definitions follow the specification, for comparison with
  \<open>pdf_output_filename\<close>.
\<close>

definition spec_source_extension :: "path \<Rightarrow> string" where
  "spec_source_extension p =
     (let base = rev (takeWhile (\<lambda>c. c \<noteq> CHR ''/'') (rev p));
          stem = dropWhile (\<lambda>c. c = CHR ''.'') base
      in if CHR ''.'' \<in> set stem
         then CHR ''.'' # rev (takeWhile (\<lambda>c. c \<noteq> CHR ''.'') (rev stem))
         else [])"

definition spec_document_filename :: "path \<Rightarrow> string \<Rightarrow> string" where
  "spec_document_filename source_path output_name =
     (let ext = spec_source_extension source_path
      in if endswith output_name ext then output_name else output_name @ ext)"

subsection \<open>Example worlds\<close>

definition book_world :: world where
  "book_world =
     \<lparr>files = [''/d/book.pdf'' \<mapsto> PdfDocument [''p1'', ''p2'', ''p3'', ''p4'']],
      denied = [], trace = []\<rparr>"

definition scan_world :: world where
  "scan_world =
     \<lparr>files = [''/d/scan.PDF'' \<mapsto> PdfDocument [''p1'', ''p2'']],
      denied = [], trace = []\<rparr>"

definition locked_world :: world where
  "locked_world =
     \<lparr>files = [''/d/book.pdf'' \<mapsto> PdfDocument [''p1'', ''p2'', ''p3'', ''p4'']],
      denied = [''/d/A.pdf'', ''/d/B.md''], trace = []\<rparr>"

definition broken_world :: world where
  "broken_world =
     \<lparr>files = [''/d/book.pdf'' \<mapsto> PlainData ''not a pdf''],
      denied = [], trace = []\<rparr>"

text \<open>The world after \<open>extract_pages\<close> has run once on \<open>book_world\<close>.\<close>

definition book_world_after :: world where
  "book_world_after =
     \<lparr>files = [''/d/book.pdf'' \<mapsto> PdfDocument [''p1'', ''p2'', ''p3'', ''p4''],
               ''/d/A.pdf'' \<mapsto> PdfDocument [''p1'', ''p2''],
               ''/d/A.md'' \<mapsto> PlainData []],
      denied = [],
      trace = [Parse ''/d/book.pdf'', Print (TotalPages 4),
               Create ''/d/A.pdf'' (PdfDocument [''p1'', ''p2'']),
               Print (SavedRange 1 2 ''/d/A.pdf''),
               Create ''/d/A.md'' (PlainData []),
               Print (CreatedMarkdown ''/d/A.md''),
               Print (WarnBeyondTotal 3 9 0 4)]\<rparr>"

subsection \<open>Ranges whose document cannot be written\<close>


subsection \<open>An invariant of the files written\<close>

text \<open>
  \<open>W\<close> is the finite map of what a run has written and \<open>evs\<close> its events: on every
  path ending in \<open>.md\<close> the run has left an empty file or nothing, and every file it
  created under such a path is empty at the end.
\<close>

definition companions_empty :: "(path \<rightharpoonup> node) \<Rightarrow> event list \<Rightarrow> bool" where
  "companions_empty W evs =
     ((\<forall>p. endswith p ''.md'' \<longrightarrow> W p = None \<or> W p = Some (PlainData [])) \<and>
      (\<forall>p c. Create p c \<in> set evs \<longrightarrow> endswith p ''.md'' \<longrightarrow>
         c = PlainData [] \<and> W p = Some (PlainData [])))"

section \<open>Properties\<close>

subsection \<open>Suffixes and paths\<close>

lemma endswith_append: "endswith (s @ suffix) suffix"
  by (simp add: endswith_def)

lemma endswith_same_length:
  "endswith s a \<Longrightarrow> endswith s b \<Longrightarrow> length a = length b \<Longrightarrow> a = b"
  by (simp add: endswith_def)

lemma endswith_prepend: "endswith b suffix \<Longrightarrow> endswith (x @ b) suffix"
  by (auto simp: endswith_def)

lemma path_join_cases:
  "path_join a b = b \<or> path_join a b = a @ b \<or> path_join a b = (a @ ''/'') @ b"
  by (simp add: path_join_def)

lemma endswith_path_join: "endswith b suffix \<Longrightarrow> endswith (path_join a b) suffix"
  using path_join_cases[of a b] endswith_prepend[of b suffix] by metis

lemma endswith_pdf_output: "endswith (pdf_output_filename n) ''.pdf''"
  by (simp add: pdf_output_filename_def endswith_append)

lemma endswith_md_output: "endswith (md_output_filename n) ''.md''"
  by (simp add: md_output_filename_def endswith_append)

lemma endswith_last: "endswith s suffix \<Longrightarrow> suffix \<noteq> [] \<Longrightarrow> last s = last suffix"
  by (metis append_take_drop_id endswith_def last_appendR)

lemma output_paths_differ:
  "path_join d (pdf_output_filename n) \<noteq> path_join d' (md_output_filename n')"
proof
  assume eq: "path_join d (pdf_output_filename n) = path_join d' (md_output_filename n')"
  have a: "endswith (path_join d (pdf_output_filename n)) ''.pdf''"
    by (rule endswith_path_join) (rule endswith_pdf_output)
  have b: "endswith (path_join d' (md_output_filename n')) ''.md''"
    by (rule endswith_path_join) (rule endswith_md_output)
  from endswith_last[OF a] endswith_last[OF b] eq show False by simp
qed


lemma add_pages_in_range:
  "\<forall>i \<in> set ns. 0 \<le> i \<and> i < int (length reader) \<Longrightarrow>
   add_pages reader ns writer = Inr (writer @ map (\<lambda>i. reader ! nat i) ns)"
  by (induction ns arbitrary: writer) (simp_all add: pages_getitem_def)

lemma map_upto_take_drop:
  assumes "0 \<le> a" and "b < int (length xs)"
  shows "map (\<lambda>i. xs ! nat i) [a..b] = take (nat (b - a + 1)) (drop (nat a) xs)"
proof (rule nth_equalityI)
  show "length (map (\<lambda>i. xs ! nat i) [a..b]) = length (take (nat (b - a + 1)) (drop (nat a) xs))"
    using assms by simp
next
  fix k assume "k < length (map (\<lambda>i. xs ! nat i) [a..b])"
  then have k: "int k < b - a + 1" by simp
  then have "[a..b] ! k = a + int k" by (simp add: nth_upto)
  moreover have "nat (a + int k) = nat a + k" using assms by simp
  ultimately show "map (\<lambda>i. xs ! nat i) [a..b] ! k = take (nat (b - a + 1)) (drop (nat a) xs) ! k"
    using k assms by simp
qed

lemma add_pages_valid:
  assumes "1 \<le> a" and "a \<le> b" and "b \<le> int (length reader)"
  shows "add_pages reader (py_range (a - 1) b) [] = Inr (take (nat (b - a + 1)) (drop (nat (a - 1)) reader))"
proof -
  have "add_pages reader (py_range (a - 1) b) [] = Inr ([] @ map (\<lambda>i. reader ! nat i) [a - 1..b - 1])"
    unfolding py_range_def using assms by (intro add_pages_in_range) auto
  moreover have "map (\<lambda>i. reader ! nat i) [a - 1..b - 1] = take (nat ((b - 1) - (a - 1) + 1)) (drop (nat (a - 1)) reader)"
    using assms by (intro map_upto_take_drop) auto
  ultimately show ?thesis by simp
qed

lemma process_range_valid:
  assumes "1 \<le> start + offset" and "start + offset \<le> endp + offset"
    and "endp + offset \<le> int (length reader)"
  shows "process_range pdf_dir reader (int (length reader)) offset w (start, endp, name) =
    (let doc = take (nat (endp - start + 1)) (drop (nat (start + offset - 1)) reader);
         output_path = path_join pdf_dir (pdf_output_filename name);
         md_output_path = path_join pdf_dir (md_output_filename name)
     in if output_path \<in> set (denied w) then (Inl (OSError output_path), w)
        else if md_output_path \<in> set (denied w) then
          (Inr (), w\<lparr>files := (files w)(output_path \<mapsto> PdfDocument doc),
                       trace := trace w @ [Create output_path (PdfDocument doc),
                                           Print (SavedRange start endp output_path),
                                           Print (MarkdownFailed md_output_path (OSError md_output_path))]\<rparr>)
        else
          (Inr (), w\<lparr>files := (files w)(output_path \<mapsto> PdfDocument doc, md_output_path \<mapsto> PlainData []),
                       trace := trace w @ [Create output_path (PdfDocument doc),
                                           Print (SavedRange start endp output_path),
                                           Create md_output_path (PlainData []),
                                           Print (CreatedMarkdown md_output_path)]\<rparr>))"
proof -
  have "add_pages reader (py_range (start + offset - 1) (endp + offset)) [] =
        Inr (take (nat (endp - start + 1)) (drop (nat (start + offset - 1)) reader))"
    using add_pages_valid[OF assms] by simp
  then show ?thesis
    using assms by (simp add: process_range_def open_write_def emit_def Let_def)
qed

subsection \<open>What one call changes\<close>

lemma process_range_skip:
  assumes "start + offset < 1 \<or> endp + offset < 1 \<or> start + offset > total_pages
           \<or> endp + offset > total_pages \<or> start + offset > endp + offset"
  shows "\<exists>m\<in>{WarnBelowOne start endp offset, WarnBeyondTotal start endp offset total_pages,
              WarnStartAfterEnd start endp offset}.
           \<forall>w. process_range pdf_dir reader total_pages offset w (start, endp, name) = (Inr (), emit m w)"
  using assms by (auto simp: process_range_def Let_def)

lemma pdf_not_md: "endswith p ''.pdf'' \<Longrightarrow> \<not> endswith p ''.md''"
  using endswith_last[of p "''.pdf''"] endswith_last[of p "''.md''"] by auto

lemma output_path_not_md: "\<not> endswith (path_join d (pdf_output_filename n)) ''.md''"
  by (intro pdf_not_md endswith_path_join endswith_pdf_output)

lemma companions_empty_prints [simp]:
  "companions_empty Map.empty []" "companions_empty Map.empty [Print m]"
  by (simp_all add: companions_empty_def)

lemma companions_empty_doc:
  "\<not> endswith out ''.md'' \<Longrightarrow>
   companions_empty [out \<mapsto> PdfDocument doc] [Create out (PdfDocument doc), Print m1, Print m2]"
  by (auto simp: companions_empty_def)

lemma companions_empty_both:
  "\<not> endswith out ''.md'' \<Longrightarrow>
   companions_empty [out \<mapsto> PdfDocument doc, md \<mapsto> PlainData []]
     [Create out (PdfDocument doc), Print m1, Create md (PlainData []), Print m2]"
  by (auto simp: companions_empty_def)

lemma companions_empty_append:
  assumes "companions_empty W1 e1" and "companions_empty W2 e2"
  shows "companions_empty (W1 ++ W2) (e1 @ e2)"
proof -
  have A: "(W1 ++ W2) p = None \<or> (W1 ++ W2) p = Some (PlainData [])" if "endswith p ''.md''" for p
    using assms that by (auto simp: companions_empty_def map_add_def split: option.splits)
  have B: "c = PlainData [] \<and> (W1 ++ W2) p = Some (PlainData [])"
    if "Create p c \<in> set (e1 @ e2)" and md: "endswith p ''.md''" for p c
  proof -
    from that consider "Create p c \<in> set e1" | "Create p c \<in> set e2" by auto
    then show ?thesis
    proof cases
      case 1
      then have "c = PlainData []" "W1 p = Some (PlainData [])"
        using assms(1) md by (auto simp: companions_empty_def)
      moreover have "W2 p = None \<or> W2 p = Some (PlainData [])"
        using assms(2) md by (auto simp: companions_empty_def)
      ultimately show ?thesis by (auto simp: map_add_def)
    next
      case 2
      then have "c = PlainData []" "W2 p = Some (PlainData [])"
        using assms(2) md by (auto simp: companions_empty_def)
      then show ?thesis by (simp add: map_add_def)
    qed
  qed
  show ?thesis unfolding companions_empty_def using A B by blast
qed

lemma companions_empty_framed:
  assumes "companions_empty W evs"
  shows "companions_empty W ([Parse q, Print m] @ evs @ (case R of Inl e \<Rightarrow> [Print (f e)] | Inr u \<Rightarrow> []))"
  using assms by (cases R) (auto simp: companions_empty_def)

lemma process_range_effect:
  "\<exists>R W evs. companions_empty W evs \<and> (\<forall>w. denied w = dn \<longrightarrow>
     process_range pdf_dir reader (int (length reader)) offset w r =
       (R, w\<lparr>files := files w ++ W, trace := trace w @ evs\<rparr>))"
proof (cases r)
  case (fields start endp name)
  let ?tp = "int (length reader)"
  let ?out = "path_join pdf_dir (pdf_output_filename name)"
  let ?md = "path_join pdf_dir (md_output_filename name)"
  let ?doc = "take (nat (endp - start + 1)) (drop (nat (start + offset - 1)) reader)"
  show ?thesis
  proof (cases "1 \<le> start + offset \<and> start + offset \<le> endp + offset \<and> endp + offset \<le> ?tp")
    case False
    then have "start + offset < 1 \<or> endp + offset < 1 \<or> start + offset > ?tp
           \<or> endp + offset > ?tp \<or> start + offset > endp + offset" by linarith
    from process_range_skip[OF this] obtain m where
      "\<forall>w. process_range pdf_dir reader ?tp offset w (start, endp, name) = (Inr (), emit m w)"
      by blast
    then have "\<forall>w. denied w = dn \<longrightarrow> process_range pdf_dir reader ?tp offset w r =
        (Inr (), w\<lparr>files := files w ++ Map.empty, trace := trace w @ [Print m]\<rparr>)"
      using fields by (simp add: emit_def)
    moreover have "companions_empty Map.empty [Print m]" by simp
    ultimately show ?thesis by blast
  next
    case True
    then have v: "1 \<le> start + offset" "start + offset \<le> endp + offset" "endp + offset \<le> ?tp"
      by simp_all
    note pr = process_range_valid[OF v, of pdf_dir _ name]
    note nm = output_path_not_md[of pdf_dir name]
    consider (a) "?out \<in> set dn" | (b) "?out \<notin> set dn" "?md \<in> set dn"
      | (c) "?out \<notin> set dn" "?md \<notin> set dn" by blast
    then show ?thesis
    proof cases
      case a
      then have "\<forall>w. denied w = dn \<longrightarrow> process_range pdf_dir reader ?tp offset w r =
          (Inl (OSError ?out), w\<lparr>files := files w ++ Map.empty, trace := trace w @ []\<rparr>)"
        using fields pr by simp
      moreover have "companions_empty Map.empty []" by simp
      ultimately show ?thesis by blast
    next
      case b
      then have "\<forall>w. denied w = dn \<longrightarrow> process_range pdf_dir reader ?tp offset w r =
          (Inr (), w\<lparr>files := files w ++ [?out \<mapsto> PdfDocument ?doc],
             trace := trace w @ [Create ?out (PdfDocument ?doc), Print (SavedRange start endp ?out),
                                 Print (MarkdownFailed ?md (OSError ?md))]\<rparr>)"
        using fields pr by (simp add: Let_def)
      moreover note companions_empty_doc[OF nm, of ?doc "SavedRange start endp ?out"
          "MarkdownFailed ?md (OSError ?md)"]
      ultimately show ?thesis by blast
    next
      case c
      then have "\<forall>w. denied w = dn \<longrightarrow> process_range pdf_dir reader ?tp offset w r =
          (Inr (), w\<lparr>files := files w ++ [?out \<mapsto> PdfDocument ?doc, ?md \<mapsto> PlainData []],
             trace := trace w @ [Create ?out (PdfDocument ?doc), Print (SavedRange start endp ?out),
                                 Create ?md (PlainData []), Print (CreatedMarkdown ?md)]\<rparr>)"
        using fields pr by (simp add: Let_def)
      moreover note companions_empty_both[OF nm, of ?doc ?md "SavedRange start endp ?out"
          "CreatedMarkdown ?md"]
      ultimately show ?thesis by blast
    qed
  qed
qed

lemma ranges_loop_effect:
  "\<exists>R W evs. companions_empty W evs \<and> (\<forall>w. denied w = dn \<longrightarrow>
     ranges_loop pdf_dir reader (int (length reader)) offset w rs =
       (R, w\<lparr>files := files w ++ W, trace := trace w @ evs\<rparr>))"
proof (induction rs)
  case Nil
  have "\<forall>w. denied w = dn \<longrightarrow> ranges_loop pdf_dir reader (int (length reader)) offset w [] =
       (Inr (), w\<lparr>files := files w ++ Map.empty, trace := trace w @ []\<rparr>)" by simp
  moreover have "companions_empty Map.empty []" by simp
  ultimately show ?case by blast
next
  case (Cons r rs)
  from process_range_effect[of dn pdf_dir reader offset r] obtain R1 W1 e1 where
    c1: "companions_empty W1 e1" and
    1: "\<And>w. denied w = dn \<Longrightarrow> process_range pdf_dir reader (int (length reader)) offset w r =
       (R1, w\<lparr>files := files w ++ W1, trace := trace w @ e1\<rparr>)" by blast
  from Cons.IH obtain R2 W2 e2 where
    c2: "companions_empty W2 e2" and
    2: "\<And>w. denied w = dn \<Longrightarrow> ranges_loop pdf_dir reader (int (length reader)) offset w rs =
       (R2, w\<lparr>files := files w ++ W2, trace := trace w @ e2\<rparr>)" by blast
  show ?case
  proof (cases R1)
    case (Inl e)
    then have "\<forall>w. denied w = dn \<longrightarrow>
        ranges_loop pdf_dir reader (int (length reader)) offset w (r # rs) =
          (R1, w\<lparr>files := files w ++ W1, trace := trace w @ e1\<rparr>)"
      using 1 by simp
    with c1 show ?thesis by blast
  next
    case (Inr u)
    have "\<forall>w. denied w = dn \<longrightarrow>
        ranges_loop pdf_dir reader (int (length reader)) offset w (r # rs) =
          (R2, w\<lparr>files := files w ++ (W1 ++ W2), trace := trace w @ (e1 @ e2)\<rparr>)"
    proof (intro allI impI)
      fix w :: world assume d: "denied w = dn"
      let ?w1 = "w\<lparr>files := files w ++ W1, trace := trace w @ e1\<rparr>"
      have "denied ?w1 = dn" using d by simp
      from 2[OF this] 1[OF d] Inr
      show "ranges_loop pdf_dir reader (int (length reader)) offset w (r # rs) =
          (R2, w\<lparr>files := files w ++ (W1 ++ W2), trace := trace w @ (e1 @ e2)\<rparr>)"
        by simp
    qed
    moreover note companions_empty_append[OF c1 c2]
    ultimately show ?thesis by blast
  qed
qed

lemma extract_pages_effect:
  "\<exists>R W evs. companions_empty W evs \<and> (\<forall>w. denied w = dn \<and> files w pdf_path = src \<longrightarrow>
     extract_pages w pdf_path page_ranges offset =
       (R, w\<lparr>files := files w ++ W, trace := trace w @ evs\<rparr>))"
proof (cases src)
  case None
  then have "\<forall>w. denied w = dn \<and> files w pdf_path = src \<longrightarrow>
     extract_pages w pdf_path page_ranges offset =
       (Inl (FileNotFoundError pdf_path), w\<lparr>files := files w ++ Map.empty, trace := trace w @ []\<rparr>)"
    by (simp add: extract_pages_def path_exists_def)
  moreover have "companions_empty Map.empty []" by simp
  ultimately show ?thesis by blast
next
  case (Some nd)
  show ?thesis
  proof (cases nd)
    case (PlainData bytes)
    then have "\<forall>w. denied w = dn \<and> files w pdf_path = src \<longrightarrow>
       extract_pages w pdf_path page_ranges offset =
         (Inl (PdfReadError pdf_path), w\<lparr>files := files w ++ Map.empty,
            trace := trace w @ [Parse pdf_path, Print (ProcessingFailed (PdfReadError pdf_path))]\<rparr>)"
      using Some
      by (simp add: extract_pages_def path_exists_def extract_body_def pdf_reader_def emit_def Let_def)
    moreover have "companions_empty Map.empty
        [Parse pdf_path, Print (ProcessingFailed (PdfReadError pdf_path))]"
      by (simp add: companions_empty_def)
    ultimately show ?thesis by blast
  next
    case (PdfDocument reader)
    let ?dir = "if dirname pdf_path = [] then ''.'' else dirname pdf_path"
    from ranges_loop_effect[of dn ?dir reader offset page_ranges] obtain R W evs where
      ce: "companions_empty W evs" and
      L: "\<And>w. denied w = dn \<Longrightarrow> ranges_loop ?dir reader (int (length reader)) offset w page_ranges =
         (R, w\<lparr>files := files w ++ W, trace := trace w @ evs\<rparr>)" by blast
    let ?tail = "case R of Inl e \<Rightarrow> [Print (ProcessingFailed e)] | Inr u \<Rightarrow> []"
    let ?all = "[Parse pdf_path, Print (TotalPages (int (length reader)))] @ evs @ ?tail"
    have "\<forall>w. denied w = dn \<and> files w pdf_path = src \<longrightarrow>
       extract_pages w pdf_path page_ranges offset =
         (R, w\<lparr>files := files w ++ W, trace := trace w @ ?all\<rparr>)"
    proof (intro allI impI)
      fix w :: world assume a: "denied w = dn \<and> files w pdf_path = src"
      let ?w2 = "emit (TotalPages (int (length reader))) (w\<lparr>trace := trace w @ [Parse pdf_path]\<rparr>)"
      have "denied ?w2 = dn" using a by (simp add: emit_def)
      from L[OF this] a Some PdfDocument
      show "extract_pages w pdf_path page_ranges offset =
         (R, w\<lparr>files := files w ++ W, trace := trace w @ ?all\<rparr>)"
        by (cases R) (simp_all add: extract_pages_def path_exists_def extract_body_def pdf_reader_def emit_def Let_def)
    qed
    moreover have "companions_empty W ?all"
      by (rule companions_empty_framed[OF ce])
    ultimately show ?thesis by blast
  qed
qed

lemma map_add_twice: "f ++ W ++ W = f ++ W"
  by (rule ext) (simp add: map_add_def split: option.splits)

lemma extract_twice:
  assumes "extract_pages w pdf_path page_ranges offset = (r1, w1)"
    and "files w1 pdf_path = files w pdf_path"
  shows "\<exists>w2. extract_pages w1 pdf_path page_ranges offset = (r1, w2) \<and> files w2 = files w1
          \<and> drop (length (trace w1)) (trace w2) = drop (length (trace w)) (trace w1)
          \<and> (\<forall>p c. Create p c \<in> set (drop (length (trace w1)) (trace w2)) \<longrightarrow>
                 endswith p ''.md'' \<longrightarrow> c = PlainData [] \<and> files w2 p = Some (PlainData []))"
proof -
  from extract_pages_effect[of "denied w" pdf_path "files w pdf_path" page_ranges offset]
  obtain R W evs where ce: "companions_empty W evs" and
    E: "\<And>v. denied v = denied w \<Longrightarrow> files v pdf_path = files w pdf_path \<Longrightarrow>
       extract_pages v pdf_path page_ranges offset =
         (R, v\<lparr>files := files v ++ W, trace := trace v @ evs\<rparr>)" by blast
  from E[of w] assms(1) have r: "r1 = R" and w1: "w1 = w\<lparr>files := files w ++ W, trace := trace w @ evs\<rparr>"
    by simp_all
  have "denied w1 = denied w" using w1 by simp
  from E[OF this assms(2)] have
    2: "extract_pages w1 pdf_path page_ranges offset =
         (R, w1\<lparr>files := files w1 ++ W, trace := trace w1 @ evs\<rparr>)" .
  have f: "files w1 ++ W = files w1" using w1 by (simp add: map_add_twice)
  have "\<forall>p c. Create p c \<in> set evs \<longrightarrow> endswith p ''.md'' \<longrightarrow>
          c = PlainData [] \<and> (files w1 ++ W) p = Some (PlainData [])"
    using ce by (auto simp: companions_empty_def map_add_def)
  with 2 f r w1 show ?thesis by simp
qed

subsection \<open>When the loop raises\<close>





subsection \<open>Runs on the example worlds\<close>

lemmas run_simps =
  extract_pages_def path_exists_def extract_body_def pdf_reader_def emit_def
  dirname_def rstrip_sep_def process_range_def py_range_def pages_getitem_def
  open_write_def path_join_def pdf_output_filename_def md_output_filename_def endswith_def
  upto.simps Let_def

lemma book_run:
  "extract_pages book_world ''/d/book.pdf'' [(1, 2, ''A''), (3, 9, ''B'')] 0 = (Inr (), book_world_after)"
  by (simp add: run_simps book_world_def book_world_after_def)

subsection \<open>The source file\<close>

text \<open>
  Claim C3. When \<open>pdf_path\<close> names no existing file, the call raises
  \<open>FileNotFoundError\<close> and hands the world back as it received it: the files are
  untouched and the trace has grown by nothing, so no parse was attempted, nothing was
  printed and no document or companion file was created for any descriptor.
\<close>

theorem missing_source_raises:
  assumes "\<not> path_exists w pdf_path"
  shows "extract_pages w pdf_path page_ranges offset = (Inl (FileNotFoundError pdf_path), w)"
  using assms by (simp add: extract_pages_def)

theorem missing_source_raises_witness:
  "\<not> path_exists book_world ''/d/other.pdf'' \<and>
   extract_pages book_world ''/d/other.pdf'' [(1, 2, ''A'')] 0
     = (Inl (FileNotFoundError ''/d/other.pdf''), book_world) \<and>
   files book_world ''/d/A.pdf'' = None \<and> files book_world ''/d/A.md'' = None \<and>
   trace book_world = []"
proof -
  have h: "\<not> path_exists book_world ''/d/other.pdf''"
    by (simp add: path_exists_def book_world_def)
  show ?thesis
    using h missing_source_raises [OF h, of "[(1, 2, ''A'')]" 0]
    by (simp add: book_world_def)
qed

text \<open>
  Claim C7. When \<open>pdf_path\<close> exists but does not hold a document the reader can
  parse, the call raises the reader's error to the caller. All it has done by then is the
  parse attempt and the handler's message: the files are as they were and no descriptor
  has been looked at, whatever the list of ranges.
\<close>

theorem unparsable_source_aborts:
  assumes "files w pdf_path = Some (PlainData bytes)"
  shows "extract_pages w pdf_path page_ranges offset =
           (Inl (PdfReadError pdf_path),
            w\<lparr>trace := trace w @ [Parse pdf_path, Print (ProcessingFailed (PdfReadError pdf_path))]\<rparr>)"
  using assms
  by (simp add: extract_pages_def path_exists_def extract_body_def pdf_reader_def emit_def Let_def)

theorem unparsable_source_aborts_witness:
  "files broken_world ''/d/book.pdf'' = Some (PlainData ''not a pdf'') \<and>
   fst (extract_pages broken_world ''/d/book.pdf'' [(1, 1, ''A'')] 0) = Inl (PdfReadError ''/d/book.pdf'') \<and>
   files (snd (extract_pages broken_world ''/d/book.pdf'' [(1, 1, ''A'')] 0)) = files broken_world \<and>
   trace (snd (extract_pages broken_world ''/d/book.pdf'' [(1, 1, ''A'')] 0)) =
     [Parse ''/d/book.pdf'', Print (ProcessingFailed (PdfReadError ''/d/book.pdf''))]"
proof -
  have h: "files broken_world ''/d/book.pdf'' = Some (PlainData ''not a pdf'')"
    by (simp add: broken_world_def)
  show ?thesis
    using h unparsable_source_aborts [OF h, of "[(1, 1, ''A'')]" 0]
    by (simp add: broken_world_def)
qed

subsection \<open>The pages copied\<close>



subsection \<open>Ranges out of bounds\<close>

text \<open>
  Claim C2. A descriptor whose range, after the offset, starts or ends below page 1, starts
  or ends beyond the last page, or starts after it ends, is skipped: the iteration returns
  normally, its only effect is one printed warning (so no file is created or changed), and
  the loop goes on with the remaining descriptors from there.
\<close>

theorem invalid_range_skipped:
  assumes "start + offset < 1 \<or> endp + offset < 1 \<or> start + offset > total_pages
           \<or> endp + offset > total_pages \<or> start + offset > endp + offset"
  shows "\<exists>m. process_range pdf_dir reader total_pages offset w (start, endp, name) = (Inr (), emit m w)
           \<and> files (emit m w) = files w
           \<and> trace (emit m w) = trace w @ [Print m]
           \<and> m \<in> {WarnBelowOne start endp offset,
                    WarnBeyondTotal start endp offset total_pages,
                    WarnStartAfterEnd start endp offset}
           \<and> ranges_loop pdf_dir reader total_pages offset w ((start, endp, name) # rs)
               = ranges_loop pdf_dir reader total_pages offset (emit m w) rs"
proof -
  from process_range_skip[OF assms, of pdf_dir reader name] obtain m where
    m: "m \<in> {WarnBelowOne start endp offset, WarnBeyondTotal start endp offset total_pages,
              WarnStartAfterEnd start endp offset}"
    and p: "\<And>w. process_range pdf_dir reader total_pages offset w (start, endp, name) = (Inr (), emit m w)"
    by blast
  show ?thesis
    by (rule exI[of _ m]) (use m p in \<open>simp add: emit_def\<close>)
qed

theorem invalid_range_skipped_witness:
  "((3::int) + 0 < 1 \<or> (9::int) + 0 < 1 \<or> (3::int) + 0 > 4 \<or> (9::int) + 0 > 4 \<or> (3::int) + 0 > 9 + 0) \<and>
   process_range ''/d'' [''p1'', ''p2'', ''p3'', ''p4''] 4 0 book_world (3, 9, ''B'')
     = (Inr (), emit (WarnBeyondTotal 3 9 0 4) book_world) \<and>
   ranges_loop ''/d'' [''p1'', ''p2'', ''p3'', ''p4''] 4 0 book_world [(3, 9, ''B''), (0, 1, ''C'')]
     = ranges_loop ''/d'' [''p1'', ''p2'', ''p3'', ''p4''] 4 0 (emit (WarnBeyondTotal 3 9 0 4) book_world) [(0, 1, ''C'')]"
proof -
  have h: "(3::int) + 0 < 1 \<or> (9::int) + 0 < 1 \<or> (3::int) + 0 > 4 \<or> (9::int) + 0 > 4 \<or> (3::int) + 0 > 9 + 0"
    by simp
  have p: "process_range ''/d'' [''p1'', ''p2'', ''p3'', ''p4''] 4 0 book_world (3, 9, ''B'')
     = (Inr (), emit (WarnBeyondTotal 3 9 0 4) book_world)"
    by (simp add: process_range_def)
  from invalid_range_skipped [OF h, of "''/d''" "[''p1'', ''p2'', ''p3'', ''p4'']" book_world "''B''" "[(0, 1, ''C'')]"]
  show ?thesis using h p by auto
qed

subsection \<open>File names\<close>

text \<open>
  Claim C9. The test for the \<open>.pdf\<close> suffix compares characters exactly. A name that
  ends in any four characters other than \<open>.pdf\<close> itself, such as the upper-case
  \<open>.PDF\<close> or any other case variant, still gets \<open>.pdf\<close> appended.
\<close>

theorem pdf_suffix_case_sensitive:
  assumes "endswith name suffix" and "length suffix = 4" and "suffix \<noteq> ''.pdf''"
  shows "pdf_output_filename name = name @ ''.pdf''"
proof -
  have "\<not> endswith name ''.pdf''"
    using assms endswith_same_length[of name suffix "''.pdf''"] by auto
  then show ?thesis by (simp add: pdf_output_filename_def)
qed

theorem pdf_suffix_case_sensitive_witness:
  "endswith ''Name.PDF'' ''.PDF'' \<and> length ''.PDF'' = 4 \<and> ''.PDF'' \<noteq> ''.pdf'' \<and>
   pdf_output_filename ''Name.PDF'' = ''Name.PDF.pdf''"
proof -
  have h1: "endswith ''Name.PDF'' ''.PDF''" by (simp add: endswith_def)
  have h2: "length ''.PDF'' = 4" by simp
  have h3: "''.PDF'' \<noteq> ''.pdf''" by simp
  show ?thesis using h1 h2 h3 pdf_suffix_case_sensitive [OF h1 h2 h3] by simp
qed

text \<open>
  The specification takes the document's extension from the source file. The code does
  not look at the source's name: for a source called \<open>scan.PDF\<close> the document of a
  descriptor named \<open>Chapter 1\<close> is \<open>Chapter 1.pdf\<close>, where the specification's rule
  gives \<open>Chapter 1.PDF\<close>, a file the run never creates.
\<close>

theorem source_extension_counterexample:
  "spec_document_filename ''/d/scan.PDF'' ''Chapter 1'' = ''Chapter 1.PDF'' \<and>
   pdf_output_filename ''Chapter 1'' = ''Chapter 1.pdf'' \<and>
   fst (extract_pages scan_world ''/d/scan.PDF'' [(1, 1, ''Chapter 1'')] 0) = Inr () \<and>
   files (snd (extract_pages scan_world ''/d/scan.PDF'' [(1, 1, ''Chapter 1'')] 0)) ''/d/Chapter 1.pdf''
     = Some (PdfDocument [''p1'']) \<and>
   files (snd (extract_pages scan_world ''/d/scan.PDF'' [(1, 1, ''Chapter 1'')] 0)) ''/d/Chapter 1.PDF''
     = None"
  by (simp add: run_simps scan_world_def spec_document_filename_def spec_source_extension_def)

text \<open>
  Claim C4, amended. For every processed descriptor the document's filename is the name
  with the literal \<open>.pdf\<close> appended only if the name does not already end with
  \<open>.pdf\<close>, whatever the extension of the source; the companion's filename is the name
  followed by \<open>.md\<close>, with no extension rule; these are the names under which the two
  files are created, in the directory of the source. The rule agrees with the
  specification's whenever the source's own extension is \<open>.pdf\<close>.
\<close>

theorem output_filenames:
  assumes "1 \<le> start + offset" and "start + offset \<le> endp + offset"
    and "endp + offset \<le> int (length reader)"
    and "path_join pdf_dir (pdf_output_filename name) \<notin> set (denied w)"
    and "path_join pdf_dir (md_output_filename name) \<notin> set (denied w)"
  shows "let document_name = (if endswith name ''.pdf'' then name else name @ ''.pdf'');
             companion_name = name @ ''.md'';
             res = process_range pdf_dir reader (int (length reader)) offset w (start, endp, name)
         in pdf_output_filename name = document_name
          \<and> md_output_filename name = companion_name
          \<and> (\<exists>doc. drop (length (trace w)) (trace (snd res)) =
                [Create (path_join pdf_dir document_name) (PdfDocument doc),
                 Print (SavedRange start endp (path_join pdf_dir document_name)),
                 Create (path_join pdf_dir companion_name) (PlainData []),
                 Print (CreatedMarkdown (path_join pdf_dir companion_name))])
          \<and> (\<forall>source_path. spec_source_extension source_path = ''.pdf'' \<longrightarrow>
                spec_document_filename source_path name = document_name)"
proof -
  have a: "pdf_output_filename name = (if endswith name ''.pdf'' then name else name @ ''.pdf'')"
    by (simp add: pdf_output_filename_def)
  have b: "md_output_filename name = name @ ''.md''"
    by (simp add: md_output_filename_def)
  show ?thesis
    using process_range_valid[OF assms(1-3), of pdf_dir w name] assms(4,5)
    unfolding a b by (simp add: Let_def spec_document_filename_def)
qed

theorem output_filenames_witness:
  "pdf_output_filename ''Chapter 1'' = ''Chapter 1.pdf'' \<and>
   md_output_filename ''Chapter 1'' = ''Chapter 1.md'' \<and>
   pdf_output_filename ''Chapter 1.pdf'' = ''Chapter 1.pdf'' \<and>
   md_output_filename ''Chapter 1.pdf'' = ''Chapter 1.pdf.md'' \<and>
   drop (length (trace book_world))
     (trace (snd (process_range ''/d'' [''p1'', ''p2'', ''p3'', ''p4'']
                    (int (length [''p1'', ''p2'', ''p3'', ''p4''])) 0 book_world (1, 2, ''Chapter 1.pdf''))))
     = [Create ''/d/Chapter 1.pdf'' (PdfDocument [''p1'', ''p2'']),
        Print (SavedRange 1 2 ''/d/Chapter 1.pdf''),
        Create ''/d/Chapter 1.pdf.md'' (PlainData []),
        Print (CreatedMarkdown ''/d/Chapter 1.pdf.md'')]"
proof -
  have h1: "(1::int) \<le> 1 + 0" by simp
  have h2: "(1::int) + 0 \<le> 2 + 0" by simp
  have h3: "(2::int) + 0 \<le> int (length [''p1'', ''p2'', ''p3'', ''p4''])" by simp
  have h4: "path_join ''/d'' (pdf_output_filename ''Chapter 1.pdf'') \<notin> set (denied book_world)"
    by (simp add: book_world_def)
  have h5: "path_join ''/d'' (md_output_filename ''Chapter 1.pdf'') \<notin> set (denied book_world)"
    by (simp add: book_world_def)
  have e: "endswith ''Chapter 1.pdf'' ''.pdf''" "\<not> endswith ''Chapter 1'' ''.pdf''"
    by (simp_all add: endswith_def)
  from output_filenames [OF h1 h2 h3 h4 h5]
  have "\<exists>doc. drop (length (trace book_world))
     (trace (snd (process_range ''/d'' [''p1'', ''p2'', ''p3'', ''p4'']
                    (int (length [''p1'', ''p2'', ''p3'', ''p4''])) 0 book_world (1, 2, ''Chapter 1.pdf''))))
     = [Create (path_join ''/d'' ''Chapter 1.pdf'') (PdfDocument doc),
        Print (SavedRange 1 2 (path_join ''/d'' ''Chapter 1.pdf'')),
        Create (path_join ''/d'' ''Chapter 1.pdf.md'') (PlainData []),
        Print (CreatedMarkdown (path_join ''/d'' ''Chapter 1.pdf.md''))]"
    using e by (simp add: Let_def)
  moreover have "process_range ''/d'' [''p1'', ''p2'', ''p3'', ''p4'']
                    (int (length [''p1'', ''p2'', ''p3'', ''p4''])) 0 book_world (1, 2, ''Chapter 1.pdf'')
     = (Inr (), \<lparr>files = [''/d/book.pdf'' \<mapsto> PdfDocument [''p1'', ''p2'', ''p3'', ''p4''],
                       ''/d/Chapter 1.pdf'' \<mapsto> PdfDocument [''p1'', ''p2''],
                       ''/d/Chapter 1.pdf.md'' \<mapsto> PlainData []],
               denied = [],
               trace = [Create ''/d/Chapter 1.pdf'' (PdfDocument [''p1'', ''p2'']),
                        Print (SavedRange 1 2 ''/d/Chapter 1.pdf''),
                        Create ''/d/Chapter 1.pdf.md'' (PlainData []),
                        Print (CreatedMarkdown ''/d/Chapter 1.pdf.md'')]\<rparr>)"
    by (simp add: run_simps book_world_def)
  ultimately show ?thesis
    using e by (simp add: pdf_output_filename_def md_output_filename_def book_world_def)
qed

subsection \<open>Writing the two files\<close>

text \<open>
  Claim C8. When a descriptor's document has been written and the companion file cannot
  be opened, the iteration prints the failure and returns normally: the document file
  holds the copied pages, nothing is written under the companion path, and the loop goes
  on with the remaining descriptors.
\<close>

theorem companion_failure_not_fatal:
  assumes "1 \<le> start + offset" and "start + offset \<le> endp + offset"
    and "endp + offset \<le> int (length reader)"
    and "path_join pdf_dir (pdf_output_filename name) \<notin> set (denied w)"
    and "path_join pdf_dir (md_output_filename name) \<in> set (denied w)"
  shows "let doc = take (nat (endp - start + 1)) (drop (nat (start + offset - 1)) reader);
             output_path = path_join pdf_dir (pdf_output_filename name);
             md_output_path = path_join pdf_dir (md_output_filename name);
             w' = w\<lparr>files := (files w)(output_path \<mapsto> PdfDocument doc),
                     trace := trace w @ [Create output_path (PdfDocument doc),
                                         Print (SavedRange start endp output_path),
                                         Print (MarkdownFailed md_output_path (OSError md_output_path))]\<rparr>
         in process_range pdf_dir reader (int (length reader)) offset w (start, endp, name) = (Inr (), w')
          \<and> files w' output_path = Some (PdfDocument doc)
          \<and> files w' md_output_path = files w md_output_path
          \<and> ranges_loop pdf_dir reader (int (length reader)) offset w ((start, endp, name) # rs)
               = ranges_loop pdf_dir reader (int (length reader)) offset w' rs"
  using process_range_valid[OF assms(1,2,3), of pdf_dir w name] assms(4,5)
    output_paths_differ[of pdf_dir name pdf_dir name]
  by (simp add: Let_def)

theorem companion_failure_not_fatal_witness:
  "(1::int) \<le> 1 + 0 \<and> (1::int) + 0 \<le> 2 + 0 \<and> (2::int) + 0 \<le> int (length [''p1'', ''p2'', ''p3'', ''p4'']) \<and>
   ''/d/B.pdf'' \<notin> set (denied locked_world) \<and> ''/d/B.md'' \<in> set (denied locked_world) \<and>
   fst (process_range ''/d'' [''p1'', ''p2'', ''p3'', ''p4''] 4 0 locked_world (1, 2, ''B'')) = Inr () \<and>
   files (snd (process_range ''/d'' [''p1'', ''p2'', ''p3'', ''p4''] 4 0 locked_world (1, 2, ''B''))) ''/d/B.pdf''
     = Some (PdfDocument [''p1'', ''p2'']) \<and>
   files (snd (process_range ''/d'' [''p1'', ''p2'', ''p3'', ''p4''] 4 0 locked_world (1, 2, ''B''))) ''/d/B.md''
     = None"
proof -
  have h1: "(1::int) \<le> 1 + 0" by simp
  have h2: "(1::int) + 0 \<le> 2 + 0" by simp
  have h3: "(2::int) + 0 \<le> int (length [''p1'', ''p2'', ''p3'', ''p4''])" by simp
  have n1: "path_join ''/d'' (pdf_output_filename ''B'') = ''/d/B.pdf''"
    by (simp add: path_join_def pdf_output_filename_def endswith_def)
  have n2: "path_join ''/d'' (md_output_filename ''B'') = ''/d/B.md''"
    by (simp add: path_join_def md_output_filename_def)
  have h4: "path_join ''/d'' (pdf_output_filename ''B'') \<notin> set (denied locked_world)"
    unfolding n1 by (simp add: locked_world_def)
  have h5: "path_join ''/d'' (md_output_filename ''B'') \<in> set (denied locked_world)"
    unfolding n2 by (simp add: locked_world_def)
  from companion_failure_not_fatal [OF h1 h2 h3 h4 h5, of "[]"]
  show ?thesis using h1 h2 h3 h4 h5 unfolding n1 n2 by (simp add: Let_def locked_world_def)
qed

text \<open>
  Claim C10. The companion file is created only after the document file: when the
  document's path cannot be opened, the iteration raises and leaves the world as it was,
  and whenever an iteration creates a file under the companion path, the document's path
  was writable, the iteration returned normally and the creation of the document comes
  first among its events.
\<close>

theorem companion_only_after_document:
  "let output_path = path_join pdf_dir (pdf_output_filename name);
       md_output_path = path_join pdf_dir (md_output_filename name);
       res = process_range pdf_dir reader (int (length reader)) offset w (start, endp, name);
       new = drop (length (trace w)) (trace (snd res))
   in (1 \<le> start + offset \<and> start + offset \<le> endp + offset \<and> endp + offset \<le> int (length reader)
         \<and> output_path \<in> set (denied w)
       \<longrightarrow> res = (Inl (OSError output_path), w))
    \<and> ((\<exists>c. Create md_output_path c \<in> set new)
       \<longrightarrow> output_path \<notin> set (denied w) \<and> fst res = Inr ()
         \<and> (\<exists>doc. new = [Create output_path (PdfDocument doc),
                          Print (SavedRange start endp output_path),
                          Create md_output_path (PlainData []),
                          Print (CreatedMarkdown md_output_path)]))"
proof (cases "1 \<le> start + offset \<and> start + offset \<le> endp + offset \<and> endp + offset \<le> int (length reader)")
  case True
  then have v: "1 \<le> start + offset" "start + offset \<le> endp + offset"
    "endp + offset \<le> int (length reader)" by simp_all
  show ?thesis
    using process_range_valid[OF v, of pdf_dir w name] output_paths_differ[of pdf_dir name pdf_dir name]
    by (auto simp: Let_def)
next
  case False
  then have "start + offset < 1 \<or> endp + offset < 1 \<or> start + offset > int (length reader)
           \<or> endp + offset > int (length reader) \<or> start + offset > endp + offset" by linarith
  from process_range_skip[OF this, of pdf_dir reader name] False
  show ?thesis by (auto simp: Let_def emit_def)
qed

theorem companion_only_after_document_witness:
  "(1::int) \<le> 1 + 0 \<and> (1::int) + 0 \<le> 1 + 0 \<and> (1::int) + 0 \<le> int (length [''p1'', ''p2'', ''p3'', ''p4'']) \<and>
   ''/d/A.pdf'' \<in> set (denied locked_world) \<and>
   process_range ''/d'' [''p1'', ''p2'', ''p3'', ''p4''] (int (length [''p1'', ''p2'', ''p3'', ''p4''])) 0
       locked_world (1, 1, ''A'')
     = (Inl (OSError ''/d/A.pdf''), locked_world) \<and>
   files locked_world ''/d/A.md'' = None"
proof -
  have n1: "path_join ''/d'' (pdf_output_filename ''A'') = ''/d/A.pdf''"
    by (simp add: path_join_def pdf_output_filename_def endswith_def)
  have d: "''/d/A.pdf'' \<in> set (denied locked_world)" by (simp add: locked_world_def)
  from companion_only_after_document [of "''/d''" "''A''" "[''p1'', ''p2'', ''p3'', ''p4'']" 0 locked_world 1 1]
  have "process_range ''/d'' [''p1'', ''p2'', ''p3'', ''p4''] (int (length [''p1'', ''p2'', ''p3'', ''p4''])) 0
       locked_world (1, 1, ''A'') = (Inl (OSError ''/d/A.pdf''), locked_world)"
    unfolding Let_def n1 using d by simp
  then show ?thesis using d by (simp add: locked_world_def)
qed

subsection \<open>Which failures end the call\<close>




subsection \<open>Running twice\<close>

text \<open>
  Claim C6. If a run leaves the source file as it was, a second run with the same
  arguments ends the same way, performs the same writes with the same contents, and
  leaves every file exactly as the first run left it; every file it creates under a path
  ending in \<open>.md\<close> is created empty and is empty at the end.
\<close>

theorem rerun_overwrites:
  assumes "extract_pages w pdf_path page_ranges offset = (r1, w1)"
    and "files w1 pdf_path = files w pdf_path"
  shows "\<exists>w2. extract_pages w1 pdf_path page_ranges offset = (r1, w2)
          \<and> files w2 = files w1
          \<and> drop (length (trace w1)) (trace w2) = drop (length (trace w)) (trace w1)
          \<and> (\<forall>p c. Create p c \<in> set (drop (length (trace w1)) (trace w2)) \<longrightarrow>
                 endswith p ''.md'' \<longrightarrow> c = PlainData [] \<and> files w2 p = Some (PlainData []))"
  using assms by (rule extract_twice)

theorem rerun_overwrites_witness:
  "extract_pages book_world ''/d/book.pdf'' [(1, 2, ''A''), (3, 9, ''B'')] 0 = (Inr (), book_world_after) \<and>
   files book_world_after ''/d/book.pdf'' = files book_world ''/d/book.pdf'' \<and>
   (\<exists>w2. extract_pages book_world_after ''/d/book.pdf'' [(1, 2, ''A''), (3, 9, ''B'')] 0 = (Inr (), w2)
      \<and> files w2 = files book_world_after
      \<and> files w2 ''/d/A.pdf'' = Some (PdfDocument [''p1'', ''p2''])
      \<and> files w2 ''/d/A.md'' = Some (PlainData []))"
proof -
  have h: "files book_world_after ''/d/book.pdf'' = files book_world ''/d/book.pdf''"
    by (simp add: book_world_def book_world_after_def)
  from rerun_overwrites [OF book_run h] obtain w2 where
    "extract_pages book_world_after ''/d/book.pdf'' [(1, 2, ''A''), (3, 9, ''B'')] 0 = (Inr (), w2)"
    "files w2 = files book_world_after" by blast
  moreover have "files book_world_after ''/d/A.pdf'' = Some (PdfDocument [''p1'', ''p2''])"
    "files book_world_after ''/d/A.md'' = Some (PlainData [])"
    by (simp_all add: book_world_after_def)
  ultimately show ?thesis using book_run h by auto
qed

end
